theory Spec2Isabelle
  imports Main "HOL-Library.Word" "HOL-Library.Monad_Syntax"
begin

unbundle bit_operations_syntax

section \<open>Flags register (main.c, lines 344-377)\<close>

text \<open>
  The C enum \<open>Flag\<close>; \<open>flag_num\<close> is the integer value the enum constant has in C,
  which is what the cast \<open>(uint8_t) flag\<close> yields.
\<close>

datatype Flag = FLAG_E | FLAG_G | FLAG_L | FLAG_NE | FLAG_GE | FLAG_LE

fun flag_num :: "Flag \<Rightarrow> nat" where
  "flag_num FLAG_E = 0"
| "flag_num FLAG_G = 1"
| "flag_num FLAG_L = 2"
| "flag_num FLAG_NE = 3"
| "flag_num FLAG_GE = 4"
| "flag_num FLAG_LE = 5"

record Flags =
  buf :: "8 word"

definition ONE :: "8 word" where
  "ONE = 1"

definition flag_new :: "Flags" where
  "flag_new = \<lparr>buf = 0\<rparr>"

text \<open>
  C promotes both \<open>uint8_t\<close> operands of \<open><<\<close>, \<open>|\<close>, \<open>&\<close> and \<open>~\<close> to \<open>int\<close>
  (32 bits); the compound assignment converts the \<open>int\<close> result back to \<open>uint8_t\<close>.
  The promotions are the \<open>ucast\<close>s to \<open>32 word\<close>, the conversion back is the outer
  \<open>ucast\<close>.
\<close>

definition flag_set :: "Flags \<Rightarrow> Flag \<Rightarrow> Flags" where
  "flag_set flags flag =
     flags\<lparr>buf := ucast ((ucast (buf flags) :: 32 word)
                       OR push_bit (flag_num flag) (ucast ONE))\<rparr>"

definition flag_reset :: "Flags \<Rightarrow> Flag \<Rightarrow> Flags" where
  "flag_reset flags flag =
     flags\<lparr>buf := ucast ((ucast (buf flags) :: 32 word)
                       AND NOT (push_bit (flag_num flag) (ucast ONE)))\<rparr>"

definition "is" :: "Flags \<Rightarrow> Flag \<Rightarrow> bool" where
  "is flags flag \<longleftrightarrow>
     drop_bit (flag_num flag)
       ((ucast (buf flags) :: 32 word) AND push_bit (flag_num flag) (ucast ONE)) \<noteq> 0"

section \<open>IEEE-754 binary64 and the C conversions between \<open>double\<close> and \<open>uint64_t\<close>\<close>

text \<open>
  A C \<open>double\<close> is modelled by its IEEE-754 binary64 bit pattern: bit 63 is the sign,
  bits 52-62 the biased exponent, bits 0-51 the fraction. main.c never reinterprets the
  bits of a double as an integer; every cast between \<open>double\<close> and \<open>uint64_t\<close>
  in it is C's value conversion, which is what \<open>f64_of_u64\<close> and \<open>u64_of_f64\<close> compute.
\<close>

type_synonym double = "64 word"

definition f64_exp :: "double \<Rightarrow> nat" where
  "f64_exp d = (unat d div 2 ^ 52) mod 2 ^ 11"

definition f64_man :: "double \<Rightarrow> nat" where
  "f64_man d = unat d mod 2 ^ 52"

definition f64_sign :: "double \<Rightarrow> bool" where
  "f64_sign d \<longleftrightarrow> bit d 63"

definition f64_is_nan :: "double \<Rightarrow> bool" where
  "f64_is_nan d \<longleftrightarrow> f64_exp d = 2047 \<and> f64_man d \<noteq> 0"

definition f64_is_zero :: "double \<Rightarrow> bool" where
  "f64_is_zero d \<longleftrightarrow> f64_exp d = 0 \<and> f64_man d = 0"

text \<open>
  The C operator \<open>!=\<close> on doubles: true when either operand is a NaN; \<open>+0.0\<close> and
  \<open>-0.0\<close> compare equal; otherwise two doubles are equal exactly when their bit
  patterns are.
\<close>

definition f64_ne :: "double \<Rightarrow> double \<Rightarrow> bool" where
  "f64_ne a b \<longleftrightarrow>
     f64_is_nan a \<or> f64_is_nan b \<or> (a \<noteq> b \<and> \<not> (f64_is_zero a \<and> f64_is_zero b))"

text \<open>\<open>bit_width n\<close> is the number of binary digits of \<open>n\<close> (0 for 0).\<close>

fun bit_width :: "nat \<Rightarrow> nat" where
  "bit_width n = (if n = 0 then 0 else Suc (bit_width (n div 2)))"

declare bit_width.simps [simp del]

text \<open>
  The cast \<open>(double) u\<close> of a \<open>uint64_t\<close>: the nearest double, ties to the even
  significand (the default rounding mode). With \<open>e\<close> the position of the leading bit,
  an integer of at most 53 significant bits is exact; otherwise the low \<open>e - 52\<close> bits
  are rounded away. A carry out of the significand moves into the exponent field by the
  addition.
\<close>

definition f64_of_u64 :: "64 word \<Rightarrow> double" where
  "f64_of_u64 w =
     (let n = unat w in
      if n = 0 then 0
      else
        let e = bit_width n - 1 in
        if e \<le> 52 then word_of_nat ((e + 1023) * 2 ^ 52 + (n * 2 ^ (52 - e) - 2 ^ 52))
        else
          let s = e - 52; q = n div 2 ^ s; r = n mod 2 ^ s; h = 2 ^ (s - 1);
              q' = (if h < r \<or> (r = h \<and> odd q) then q + 1 else q)
          in word_of_nat ((e + 1023) * 2 ^ 52 + (q' - 2 ^ 52)))"

text \<open>
  The cast \<open>(uint64_t) d\<close> of a \<open>double\<close>: the value truncated towards zero. C leaves
  the conversion undefined when the truncated value is not representable in
  \<open>uint64_t\<close> (a NaN, an infinity, \<open>d \<le> -1\<close>, \<open>d \<ge> 2^64\<close>): that is \<open>None\<close>.
\<close>

definition u64_of_f64 :: "double \<Rightarrow> 64 word option" where
  "u64_of_f64 d =
     (let e = f64_exp d; m = f64_man d in
      if e = 2047 then None
      else if e < 1023 then Some 0
      else if f64_sign d then None
      else if 1087 \<le> e then None
      else if 1075 \<le> e then Some (word_of_nat ((2 ^ 52 + m) * 2 ^ (e - 1075)))
      else Some (word_of_nat ((2 ^ 52 + m) div 2 ^ (1075 - e))))"

text \<open>
  \<open>abs\<close> on \<open>int\<close> (32 bits, two's complement): undefined for \<open>INT_MIN\<close>, whose
  negation is not representable.
\<close>

definition c_abs :: "32 word \<Rightarrow> 32 word option" where
  "c_abs x = (if sint x = - (2 ^ 31) then None else Some (if sint x < 0 then - x else x))"

section \<open>NaN boxing (main.c, lines 8-129)\<close>

text \<open>
  The enum \<open>Type\<close> is kept as the integer it is in C, since \<open>nan_get_type\<close> casts an
  arbitrary 4-bit field to it.
\<close>

type_synonym Type = "32 word"

definition TYPE_I64 :: Type where "TYPE_I64 = 0"
definition TYPE_U64 :: Type where "TYPE_U64 = 1"
definition TYPE_F64 :: Type where "TYPE_F64 = 2"
definition TYPE_STR :: Type where "TYPE_STR = 3"
definition TYPE_U8 :: Type where "TYPE_U8 = 4"

text \<open>The struct \<open>NaNBox\<close>; its one field \<open>v\<close> is \<open>nan_v\<close> here.\<close>

record NaNBox =
  nan_v :: double

definition EXP_MASK :: "64 word" where
  "EXP_MASK = push_bit 52 (push_bit 11 1 - 1)"

definition TYPE_MASK :: "64 word" where
  "TYPE_MASK = push_bit 48 (push_bit 4 1 - 1)"

definition VALUE_MASK :: "64 word" where
  "VALUE_MASK = push_bit 48 1 - 1"

definition nan_make_inf :: double where
  "nan_make_inf = f64_of_u64 EXP_MASK"

definition nan_is_nan :: "NaNBox \<Rightarrow> bool" where
  "nan_is_nan nan \<longleftrightarrow> f64_ne (nan_v nan) (nan_v nan)"

definition nan_set_type :: "double \<Rightarrow> Type \<Rightarrow> double option" where
  "nan_set_type x ty = do {
     bits \<leftarrow> u64_of_f64 x;
     let tv = (ucast ty :: 64 word);
     Some (f64_of_u64 ((bits AND NOT TYPE_MASK) OR push_bit 48 (tv AND 0xF)))
   }"

definition nan_get_type :: "NaNBox \<Rightarrow> Type option" where
  "nan_get_type nan =
     (if nan_is_nan nan then Some TYPE_F64
      else do {
        bits \<leftarrow> u64_of_f64 (nan_v nan);
        Some (ucast (drop_bit 48 (bits AND TYPE_MASK)))
      })"

text \<open>
  \<open>(int) v\<close> keeps the low 32 bits of \<open>v\<close>; \<open>(uint64_t)\<close> of the \<open>int\<close> that
  \<open>abs\<close> returns sign-extends it. \<open>1LL << 63LL\<close> is the pattern with only bit 63 set.
\<close>

definition nan_set_value :: "double \<Rightarrow> 64 word \<Rightarrow> double option" where
  "nan_set_value x val = do {
     let y = (if val = 0 then push_bit 63 1 else 0);
     bits \<leftarrow> u64_of_f64 x;
     a \<leftarrow> c_abs (ucast val);
     Some (f64_of_u64 ((bits AND NOT VALUE_MASK) OR (scast a AND VALUE_MASK) OR y))
   }"

definition nan_get_value :: "NaNBox \<Rightarrow> 64 word option" where
  "nan_get_value nan = do {
     bits \<leftarrow> u64_of_f64 (nan_v nan);
     let val = bits AND VALUE_MASK;
     Some (if bits AND push_bit 63 1 \<noteq> 0 then - val else val)
   }"

definition nan_is_f64 :: "NaNBox \<Rightarrow> bool" where
  "nan_is_f64 nan \<longleftrightarrow> \<not> nan_is_nan nan"

definition nan_is_i64 :: "NaNBox \<Rightarrow> bool option" where
  "nan_is_i64 nan =
     (if nan_is_nan nan then map_option (\<lambda>t. t = TYPE_I64) (nan_get_type nan)
      else Some False)"

definition nan_as_f64 :: "NaNBox \<Rightarrow> double" where
  "nan_as_f64 nan = nan_v nan"

definition nan_as_i64 :: "NaNBox \<Rightarrow> 64 word option" where
  "nan_as_i64 nan = nan_get_value nan"

definition nan_as_u64 :: "NaNBox \<Rightarrow> 64 word option" where
  "nan_as_u64 nan = nan_get_value nan"

text \<open>
  \<open>nan_as_u8\<close> is declared \<open>bool\<close>: the \<open>uint8_t\<close> it computes is converted to
  \<open>bool\<close> on return, which is \<open>true\<close> exactly for a non-zero byte.
\<close>

definition nan_as_u8 :: "NaNBox \<Rightarrow> bool option" where
  "nan_as_u8 nan = map_option (\<lambda>r. (ucast r :: 8 word) \<noteq> 0) (nan_get_value nan)"

definition nan_from_f64 :: "double \<Rightarrow> NaNBox" where
  "nan_from_f64 f = \<lparr>nan_v = f\<rparr>"

definition nan_from_i64 :: "64 word \<Rightarrow> NaNBox option" where
  "nan_from_i64 f = do {
     x \<leftarrow> nan_set_value nan_make_inf f;
     d \<leftarrow> nan_set_type x TYPE_I64;
     Some \<lparr>nan_v = d\<rparr>
   }"

definition nan_from_u64 :: "64 word \<Rightarrow> NaNBox option" where
  "nan_from_u64 f = do {
     x \<leftarrow> nan_set_value nan_make_inf f;
     d \<leftarrow> nan_set_type x TYPE_U64;
     Some \<lparr>nan_v = d\<rparr>
   }"

definition nan_from_u8 :: "8 word \<Rightarrow> NaNBox option" where
  "nan_from_u8 f = do {
     x \<leftarrow> nan_set_value nan_make_inf (ucast f);
     d \<leftarrow> nan_set_type x TYPE_U8;
     Some \<lparr>nan_v = d\<rparr>
   }"

section \<open>Instructions (main.c, lines 131-238)\<close>

text \<open>
  The enum \<open>Inst_Type\<close> is kept as the integer it is in C: the decoder casts an
  arbitrary byte to it without checking that an enumerator of that value exists.
\<close>

type_synonym Inst_Type = "32 word"

definition push :: Inst_Type where "push = 0"
definition pop :: Inst_Type where "pop = 1"
definition fadd :: Inst_Type where "fadd = 2"
definition fdiv :: Inst_Type where "fdiv = 3"
definition fsub :: Inst_Type where "fsub = 4"
definition fmul :: Inst_Type where "fmul = 5"
definition iadd :: Inst_Type where "iadd = 6"
definition idiv :: Inst_Type where "idiv = 7"
definition isub :: Inst_Type where "isub = 8"
definition imul :: Inst_Type where "imul = 9"
definition inc :: Inst_Type where "inc = 10"
definition dec :: Inst_Type where "dec = 11"
definition jmp :: Inst_Type where "jmp = 12"
definition je :: Inst_Type where "je = 13"
definition jne :: Inst_Type where "jne = 14"
definition jg :: Inst_Type where "jg = 15"
definition jl :: Inst_Type where "jl = 16"
definition jle :: Inst_Type where "jle = 17"
definition jge :: Inst_Type where "jge = 18"
definition swap :: Inst_Type where "swap = 19"
definition dup :: Inst_Type where "dup = 20"
definition cmp :: Inst_Type where "cmp = 21"
definition dmp :: Inst_Type where "dmp = 22"
definition nop :: Inst_Type where "nop = 23"
definition label :: Inst_Type where "label = 24"
definition native :: Inst_Type where "native = 25"
definition halt :: Inst_Type where "halt = 26"

datatype Inst_Value_Type =
    INST_V_TYPE_NAN
  | INST_V_TYPE_NONE
  | INST_V_TYPE_I64
  | INST_V_TYPE_U64
  | INST_V_TYPE_F64
  | INST_V_TYPE_STR

text \<open>The integer value of each enumerator.\<close>

fun inst_v_type_num :: "Inst_Value_Type \<Rightarrow> nat" where
  "inst_v_type_num INST_V_TYPE_NAN = 0"
| "inst_v_type_num INST_V_TYPE_NONE = 1"
| "inst_v_type_num INST_V_TYPE_I64 = 2"
| "inst_v_type_num INST_V_TYPE_U64 = 3"
| "inst_v_type_num INST_V_TYPE_F64 = 4"
| "inst_v_type_num INST_V_TYPE_STR = 5"

text \<open>
  A \<open>const char *\<close>. \<open>Chars s\<close> points to a live array holding the bytes \<open>s\<close>
  followed by a terminating zero byte. \<open>Dangling\<close> is the address of an array with
  automatic storage whose function has returned: the object's lifetime has ended and the
  pointer may not be used any more.
\<close>

datatype c_str = Chars "8 word list" | Dangling

text \<open>
  The struct \<open>Inst_Value\<close> is a tag \<open>ty\<close> and a union \<open>v\<close>; every constructor
  \<open>inst_value_new_*\<close> sets the tag that names the union member it fills, which is a
  datatype. \<open>inst_value_ty\<close> reads the tag.
\<close>

datatype Inst_Value =
    V_NAN NaNBox
  | V_NONE
  | V_I64 "64 word"
  | V_U64 "64 word"
  | V_F64 double
  | V_STR c_str

fun inst_value_ty :: "Inst_Value \<Rightarrow> Inst_Value_Type" where
  "inst_value_ty (V_NAN _) = INST_V_TYPE_NAN"
| "inst_value_ty V_NONE = INST_V_TYPE_NONE"
| "inst_value_ty (V_I64 _) = INST_V_TYPE_I64"
| "inst_value_ty (V_U64 _) = INST_V_TYPE_U64"
| "inst_value_ty (V_F64 _) = INST_V_TYPE_F64"
| "inst_value_ty (V_STR _) = INST_V_TYPE_STR"

text \<open>The struct \<open>Inst\<close>; its fields \<open>ty\<close> and \<open>v\<close> are \<open>inst_ty\<close> and \<open>inst_v\<close> here.\<close>

record Inst =
  inst_ty :: Inst_Type
  inst_v :: Inst_Value

definition inst_new :: "Inst_Type \<Rightarrow> Inst_Value \<Rightarrow> Inst" where
  "inst_new ty val = \<lparr>inst_ty = ty, inst_v = val\<rparr>"

definition inst_value_new_u64 :: "64 word \<Rightarrow> Inst_Value" where
  "inst_value_new_u64 val = V_U64 val"

definition inst_value_new_f64 :: "double \<Rightarrow> Inst_Value" where
  "inst_value_new_f64 val = V_F64 val"

definition inst_value_new_void :: "Inst_Value" where
  "inst_value_new_void = V_NONE"

definition inst_value_new_nan :: "NaNBox \<Rightarrow> Inst_Value" where
  "inst_value_new_nan nan = V_NAN nan"

definition inst_value_new_str :: "c_str \<Rightarrow> Inst_Value" where
  "inst_value_new_str str = V_STR str"

definition inst_value_new_i64 :: "64 word \<Rightarrow> Inst_Value" where
  "inst_value_new_i64 val = V_I64 val"

section \<open>Memory accesses of the codec\<close>

text \<open>
  What the C standard leaves undefined, and the abort of a failed \<open>assert\<close>, are
  outcomes of their own, so that no result is invented where the program has none.
\<close>

datatype fault =
    OutOfBoundsRead
  | OutOfBoundsWrite
  | DanglingPointerUse
  | AssertionFailed

text \<open>
  An array is the list of its bytes. \<open>store_bytes buf off bs\<close> is a write of the bytes
  \<open>bs\<close> at offset \<open>off\<close> (an indexed assignment or a \<open>memcpy\<close> into the array);
  \<open>load_byte\<close> is an indexed read. An access outside the array is a fault.
\<close>

definition store_bytes :: "8 word list \<Rightarrow> nat \<Rightarrow> 8 word list \<Rightarrow> fault + 8 word list" where
  "store_bytes b off bs =
     (if off + length bs \<le> length b
      then Inr (take off b @ bs @ drop (off + length bs) b)
      else Inl OutOfBoundsWrite)"

definition load_byte :: "8 word list \<Rightarrow> nat \<Rightarrow> fault + 8 word" where
  "load_byte b i = (if i < length b then Inr (b ! i) else Inl OutOfBoundsRead)"

text \<open>
  \<open>memcpy_local dsz b off n\<close> is \<open>memcpy(&local, b + off, n)\<close> into a local object
  of \<open>dsz\<close> bytes: it reads \<open>n\<close> bytes of \<open>b\<close> from offset \<open>off\<close> and yields the
  bytes copied. Copying more bytes than the destination object has writes past it.
\<close>

definition memcpy_local :: "nat \<Rightarrow> 8 word list \<Rightarrow> nat \<Rightarrow> nat \<Rightarrow> fault + 8 word list" where
  "memcpy_local dsz b off n =
     (if dsz < n then Inl OutOfBoundsWrite
      else if length b < off + n then Inl OutOfBoundsRead
      else Inr (take n (drop off b)))"

text \<open>
  The object representation of a 64-bit integer or a double, as \<open>memcpy\<close> copies it:
  eight bytes, least significant first.
\<close>

definition bytes_of_u64 :: "64 word \<Rightarrow> 8 word list" where
  "bytes_of_u64 w = map (\<lambda>i. ucast (drop_bit (8 * i) w)) [0..<8]"

definition u64_of_bytes :: "8 word list \<Rightarrow> 64 word" where
  "u64_of_bytes bs = foldr (\<lambda>b acc. ucast b OR push_bit 8 acc) bs 0"

text \<open>\<open>strlen\<close>: the number of bytes before the first zero byte.\<close>

definition c_strlen :: "c_str \<Rightarrow> fault + nat" where
  "c_strlen str =
     (case str of
        Chars s \<Rightarrow> Inr (length (takeWhile (\<lambda>c. c \<noteq> 0) s))
      | Dangling \<Rightarrow> Inl DanglingPointerUse)"

text \<open>The bytes \<open>memcpy\<close> reads through a string pointer: the array with its terminator.\<close>

definition c_str_bytes :: "c_str \<Rightarrow> 8 word list" where
  "c_str_bytes str = (case str of Chars s \<Rightarrow> s @ [0] | Dangling \<Rightarrow> [])"

section \<open>Binary codec (main.c, lines 240-342)\<close>

definition INST_STR_CAP :: nat where
  "INST_STR_CAP = 14"

text \<open>
  The program's mutable globals that the encoder touches: the static array \<open>ret\<close> of
  \<open>INST_STR_CAP\<close> bytes, which is zero-initialised at program start, and the lines
  written to \<open>stderr\<close>.
\<close>

record globals =
  ret :: "8 word list"
  stderr :: "string list"

definition globals_init :: globals where
  "globals_init = \<lparr>ret = replicate INST_STR_CAP 0, stderr = []\<rparr>"

text \<open>
  What \<open>inst_value_to_bytes\<close> returns: the null pointer or the address of \<open>ret\<close>.
\<close>

datatype bytes_ptr = NULL | RET

definition inst_value_to_bytes :: "Inst_Value \<Rightarrow> globals \<Rightarrow> fault + (bytes_ptr \<times> globals)" where
  "inst_value_to_bytes inst_value g =
     (let size = 1 in
      case store_bytes (ret g) size [of_nat (inst_v_type_num (inst_value_ty inst_value))] of
        Inl f \<Rightarrow> Inl f
      | Inr r1 \<Rightarrow>
          let size = size + 1 in
          (case inst_value of
             V_NAN nan \<Rightarrow>
               (case store_bytes r1 size (bytes_of_u64 (nan_v nan)) of
                  Inl f \<Rightarrow> Inl f
                | Inr r2 \<Rightarrow> Inr (RET, g\<lparr>ret := r2\<rparr>))
           | V_NONE \<Rightarrow> Inr (RET, g\<lparr>ret := r1\<rparr>)
           | V_I64 i \<Rightarrow>
               (case store_bytes r1 size (bytes_of_u64 i) of
                  Inl f \<Rightarrow> Inl f
                | Inr r2 \<Rightarrow> Inr (RET, g\<lparr>ret := r2\<rparr>))
           | V_U64 u \<Rightarrow>
               (case store_bytes r1 size (bytes_of_u64 u) of
                  Inl f \<Rightarrow> Inl f
                | Inr r2 \<Rightarrow> Inr (RET, g\<lparr>ret := r2\<rparr>))
           | V_F64 d \<Rightarrow>
               (case store_bytes r1 size (bytes_of_u64 d) of
                  Inl f \<Rightarrow> Inl f
                | Inr r2 \<Rightarrow> Inr (RET, g\<lparr>ret := r2\<rparr>))
           | V_STR str \<Rightarrow>
               (case c_strlen str of
                  Inl f \<Rightarrow> Inl f
                | Inr len \<Rightarrow>
                    if len > INST_STR_CAP - size
                    then Inr (NULL, g\<lparr>ret := r1,
                                       stderr := stderr g @ [''ERROR: String is too long'']\<rparr>)
                    else
                      (case store_bytes r1 size [of_nat len] of
                         Inl f \<Rightarrow> Inl f
                       | Inr r2 \<Rightarrow>
                           let size = size + 1 in
                           (case store_bytes r2 size (take len (c_str_bytes str)) of
                              Inl f \<Rightarrow> Inl f
                            | Inr r3 \<Rightarrow> Inr (RET, g\<lparr>ret := r3\<rparr>))))))"

definition inst_type_to_bytes :: "Inst_Type \<Rightarrow> 8 word" where
  "inst_type_to_bytes ty = ucast ty"

text \<open>\<open>assert(bytes != NULL)\<close> aborts the program when the encoder returned \<open>NULL\<close>.\<close>

definition inst_to_bytes :: "Inst \<Rightarrow> globals \<Rightarrow> fault + (bytes_ptr \<times> globals)" where
  "inst_to_bytes inst g =
     (case inst_value_to_bytes (inst_v inst) g of
        Inl f \<Rightarrow> Inl f
      | Inr (bytes, g') \<Rightarrow>
          if bytes = NULL then Inl AssertionFailed
          else
            (case store_bytes (ret g') 0 [inst_type_to_bytes (inst_ty inst)] of
               Inl f \<Rightarrow> Inl f
             | Inr r' \<Rightarrow> Inr (bytes, g'\<lparr>ret := r'\<rparr>)))"

text \<open>
  \<open>inst_value_from_bytes bytes r\<close>: \<open>bytes\<close> is the array the pointer argument
  points to, \<open>r\<close> the contents of the caller's \<open>Inst\<close> before the call. The result
  is the \<open>int\<close> returned and the contents of the caller's \<open>Inst\<close> after the call.
  The pointer has no length with it, and the function reads at the offsets it computes.

  After the two header bytes \<open>idx\<close> is 2, so each \<open>memcpy\<close> of a fixed-size payload
  is asked for \<open>idx + 8\<close> bytes into an 8-byte local. In the string case \<open>idx\<close> is 3
  after the length byte, the copy is of \<open>idx + len\<close> bytes into the 16-byte local
  \<open>str\<close>, and the instruction built holds the address of that local.
\<close>

definition inst_value_from_bytes :: "8 word list \<Rightarrow> Inst \<Rightarrow> fault + (int \<times> Inst)" where
  "inst_value_from_bytes bytes r =
     (let idx = 0 in
      case load_byte bytes idx of
        Inl f \<Rightarrow> Inl f
      | Inr b0 \<Rightarrow>
          let ty = (ucast b0 :: Inst_Type); idx = idx + 1 in
          (case load_byte bytes idx of
             Inl f \<Rightarrow> Inl f
           | Inr b1 \<Rightarrow>
               let vty = unat b1; idx = idx + 1 in
               if vty = inst_v_type_num INST_V_TYPE_NAN then
                 (case memcpy_local 8 bytes idx (idx + 8) of
                    Inl f \<Rightarrow> Inl f
                  | Inr cp \<Rightarrow>
                      Inr (0, inst_new ty
                                (inst_value_new_nan (nan_from_f64 (u64_of_bytes (take 8 cp))))))
               else if vty = inst_v_type_num INST_V_TYPE_NONE then Inr (0, r)
               else if vty = inst_v_type_num INST_V_TYPE_I64 then
                 (case memcpy_local 8 bytes idx (idx + 8) of
                    Inl f \<Rightarrow> Inl f
                  | Inr cp \<Rightarrow>
                      Inr (0, inst_new ty (inst_value_new_i64 (u64_of_bytes (take 8 cp)))))
               else if vty = inst_v_type_num INST_V_TYPE_U64 then
                 (case memcpy_local 8 bytes idx (idx + 8) of
                    Inl f \<Rightarrow> Inl f
                  | Inr cp \<Rightarrow>
                      Inr (0, inst_new ty (inst_value_new_u64 (u64_of_bytes (take 8 cp)))))
               else if vty = inst_v_type_num INST_V_TYPE_F64 then
                 (case memcpy_local 8 bytes idx (idx + 8) of
                    Inl f \<Rightarrow> Inl f
                  | Inr cp \<Rightarrow>
                      Inr (0, inst_new ty (inst_value_new_f64 (u64_of_bytes (take 8 cp)))))
               else if vty = inst_v_type_num INST_V_TYPE_STR then
                 (case load_byte bytes idx of
                    Inl f \<Rightarrow> Inl f
                  | Inr l \<Rightarrow>
                      let len = unat l; idx = idx + 1 in
                      (case memcpy_local 16 bytes idx (idx + len) of
                         Inl f \<Rightarrow> Inl f
                       | Inr cp \<Rightarrow> Inr (0, inst_new ty (inst_value_new_str Dangling))))
               else Inr (1, r)))"

definition inst_from_bytes :: "8 word list \<Rightarrow> Inst \<Rightarrow> fault + (int \<times> Inst)" where
  "inst_from_bytes bytes r = inst_value_from_bytes bytes r"

section \<open>Properties of the flags register\<close>

lemma flag_num_less: "flag_num flag < 6"
  by (cases flag) simp_all

lemma flag_num_inj: "flag_num a = flag_num b \<Longrightarrow> a = b"
  by (cases a; cases b) simp_all

lemma is_bit: "is flags flag \<longleftrightarrow> bit (buf flags) (flag_num flag)"
proof -
  let ?n = "flag_num flag"
  let ?w = "(ucast (buf flags) :: 32 word) AND push_bit ?n (ucast ONE)"
  have n: "?n < 6" by (rule flag_num_less)
  have "drop_bit ?n ?w \<noteq> 0 \<longleftrightarrow> (\<exists>k. bit (drop_bit ?n ?w) k)"
    using bit_eq_iff [of "drop_bit ?n ?w" 0] by auto
  also have "\<dots> \<longleftrightarrow> bit (buf flags) ?n"
    using n by (auto simp: bit_simps ONE_def)
  finally show ?thesis by (simp add: is_def)
qed

lemma buf_flag_set:
  "bit (buf (flag_set flags a)) k \<longleftrightarrow> bit (buf flags) k \<or> k = flag_num a"
  using flag_num_less [of a]
  by (auto simp: flag_set_def bit_simps ONE_def dest: bit_imp_le_length)

lemma buf_flag_reset:
  "bit (buf (flag_reset flags a)) k \<longleftrightarrow> bit (buf flags) k \<and> k \<noteq> flag_num a"
  using flag_num_less [of a]
  by (auto simp: flag_reset_def bit_simps ONE_def dest: bit_imp_le_length)

text \<open>
  Claim C7. Flags are independent: for two distinct flags A and B, \<open>flag_set\<close> of A
  does not change what \<open>is\<close> reads for B, \<open>flag_reset\<close> of A does not change
  what \<open>is\<close> reads for B, and after \<open>flag_set\<close> of A followed by \<open>flag_reset\<close>
  of A the test of A is false.
\<close>

theorem flags_independent:
  "(a \<noteq> b \<longrightarrow> is (flag_set flags a) b = is flags b)
   \<and> (a \<noteq> b \<longrightarrow> is (flag_reset flags a) b = is flags b)
   \<and> \<not> is (flag_reset (flag_set flags a) a) a"
  by (auto simp: is_bit buf_flag_set buf_flag_reset dest: flag_num_inj)

theorem flags_independent_witness:
  "FLAG_G \<noteq> FLAG_NE
   \<and> is (flag_set \<lparr>buf = 8\<rparr> FLAG_G) FLAG_NE = is \<lparr>buf = 8\<rparr> FLAG_NE
   \<and> is (flag_reset \<lparr>buf = 10\<rparr> FLAG_G) FLAG_NE = is \<lparr>buf = 10\<rparr> FLAG_NE
   \<and> \<not> is (flag_reset (flag_set \<lparr>buf = 8\<rparr> FLAG_G) FLAG_G) FLAG_G"
  using flags_independent [of FLAG_G FLAG_NE "\<lparr>buf = 8\<rparr>"]
        flags_independent [of FLAG_G FLAG_NE "\<lparr>buf = 10\<rparr>"]
  by simp

section \<open>Evaluating the conversions\<close>

lemma bit_width_0: "bit_width 0 = 0"
  by (simp add: bit_width.simps)

lemma bit_width_1: "bit_width (Suc 0) = 1"
  by (simp add: bit_width.simps)

lemma bit_width_numeral: "bit_width (numeral k) = Suc (bit_width (numeral k div 2))"
  by (subst bit_width.simps) simp

lemmas f64_eval =
  f64_of_u64_def u64_of_f64_def f64_exp_def f64_man_def f64_sign_def Let_def
  bit_width_0 bit_width_1 bit_width_numeral

lemma EXP_MASK_val: "EXP_MASK = 0x7FF0000000000000"
  by (simp add: EXP_MASK_def)

lemma TYPE_MASK_val: "TYPE_MASK = 0x000F000000000000"
  by (simp add: TYPE_MASK_def)

lemma VALUE_MASK_val: "VALUE_MASK = 0x0000FFFFFFFFFFFF"
  by (simp add: VALUE_MASK_def)

lemma VALUE_MASK_mask: "VALUE_MASK = mask 48"
  by (simp add: VALUE_MASK_def mask_eq_exp_minus_1)

text \<open>
  \<open>nan_make_inf\<close> is the finite double 9218868437227405312.0 (sign 0, exponent field
  \<open>0x43D\<close>), not an infinity: the cast converts the value of \<open>EXP_MASK\<close>.
\<close>

lemma nan_make_inf_val: "nan_make_inf = 0x43DFFC0000000000"
  by (simp add: nan_make_inf_def EXP_MASK_val f64_eval)

lemma nan_make_inf_bits: "u64_of_f64 nan_make_inf = Some 0x7FF0000000000000"
  by (simp add: nan_make_inf_val f64_eval)

lemma bit_width_unique: "2 ^ k \<le> n \<Longrightarrow> n < 2 ^ Suc k \<Longrightarrow> bit_width n = Suc k"
proof (induction k arbitrary: n)
  case 0
  then have "n = 1" by simp
  then show ?case by (simp add: bit_width_1)
next
  case (Suc k)
  from Suc.prems have "2 ^ k \<le> n div 2" "n div 2 < 2 ^ Suc k" by auto
  then have "bit_width (n div 2) = Suc k" by (rule Suc.IH)
  moreover from Suc.prems have "n \<noteq> 0" by auto
  ultimately show ?case by (subst bit_width.simps) simp
qed

text \<open>
  An integer with leading bit 62 keeps 53 of its 63 bits; when the ten low bits are below
  one half of the last kept place, they are dropped.
\<close>

lemma f64_of_u64_round_down:
  assumes "2 ^ 62 \<le> n" "n < 2 ^ 63" "n mod 1024 < 512"
  shows "f64_of_u64 (word_of_nat n) = word_of_nat (1085 * 2 ^ 52 + (n div 1024 - 2 ^ 52))"
proof -
  have u: "unat (word_of_nat n :: 64 word) = n"
    using assms by (simp add: unat_of_nat)
  have w: "bit_width n = 63"
    using bit_width_unique [of 62 n] assms by simp
  from assms have "n \<noteq> 0" by auto
  then show ?thesis
    using assms by (simp add: f64_of_u64_def u w Let_def)
qed

lemma div_mod_1024:
  "k < 1024 \<Longrightarrow> (a * 1024 + k) div 1024 = a \<and> (a * 1024 + k) mod 1024 = (k::nat)"
  by simp

section \<open>Casts of a byte\<close>

lemma ucast_byte_64_32: "(ucast (ucast b :: 64 word) :: 32 word) = ucast b" for b :: "8 word"
  by (rule bit_word_eqI) (auto simp: bit_simps dest: bit_imp_le_length)

lemma sint_ucast_byte: "sint (ucast b :: 32 word) = uint b" for b :: "8 word"
proof -
  have eq: "uint (ucast b :: 32 word) = uint b"
    by (simp add: uint_up_ucast is_up)
  have lt: "uint b < 2 ^ 8" using uint_bounded [of b] by simp
  have "- (2 ^ 31) \<le> uint b"
  proof -
    have "- (2 ^ 31) \<le> (0::int)" by simp
    also have "0 \<le> uint b" by simp
    finally show ?thesis .
  qed
  moreover have "uint b < 2 ^ 31"
  proof -
    note lt
    also have "(2::int) ^ 8 < 2 ^ 31" by simp
    finally show ?thesis .
  qed
  ultimately have "signed_take_bit 31 (uint b) = uint b"
    by (intro signed_take_bit_int_eq_self)
  with eq show ?thesis
    by (simp add: sint_uint)
qed

lemma scast_ucast_byte: "(scast (ucast b :: 32 word) :: 64 word) = ucast b" for b :: "8 word"
  by (rule bit_word_eqI)
    (auto simp: bit_simps min_def dest: bit_imp_le_length split: if_splits)

lemma ucast_byte_and_VALUE_MASK: "(ucast b :: 64 word) AND VALUE_MASK = ucast b"
  for b :: "8 word"
  unfolding VALUE_MASK_mask
  by (rule bit_word_eqI) (auto simp: bit_simps dest: bit_imp_le_length)

lemma exp_bits_or_byte:
  "(0x7FF0000000000000 :: 64 word) OR ucast b = word_of_nat (0x7FF0000000000000 + unat b)"
  for b :: "8 word"
proof -
  have "(0x7FF0000000000000 :: 64 word) = push_bit 52 (mask 11)"
    by (simp add: mask_eq_exp_minus_1)
  moreover have "(push_bit 52 (mask 11) :: 64 word) AND ucast b = 0"
    by (rule bit_word_eqI) (auto simp: bit_simps dest: bit_imp_le_length)
  ultimately have "(0x7FF0000000000000 :: 64 word) AND ucast b = 0"
    by simp
  then have "(0x7FF0000000000000 :: 64 word) OR ucast b = 0x7FF0000000000000 + ucast b"
    by (simp add: disjunctive_add_eq_or)
  then show ?thesis by simp
qed

lemma ucast_byte_eq_0: "(ucast b :: 64 word) = 0 \<longleftrightarrow> b = 0" for b :: "8 word"
proof
  assume "(ucast b :: 64 word) = 0"
  then have "bit (ucast b :: 64 word) n = False" for n by simp
  then have "bit b n = False" for n
    using bit_imp_le_length [of b n] by (auto simp: bit_simps)
  then show "b = 0" by (simp add: bit_eq_iff)
qed simp

section \<open>Properties of the NaN-box functions\<close>

lemma nan_set_value_eq:
  assumes "u64_of_f64 x = Some bits" and "c_abs (ucast val) = Some a"
  shows "nan_set_value x val =
    Some (f64_of_u64 ((bits AND NOT VALUE_MASK) OR (scast a AND VALUE_MASK)
                      OR (if val = 0 then push_bit 63 1 else 0)))"
  using assms by (simp add: nan_set_value_def)

lemma nan_set_type_eq:
  assumes "u64_of_f64 x = Some bits"
  shows "nan_set_type x ty =
    Some (f64_of_u64 ((bits AND NOT TYPE_MASK) OR push_bit 48 (ucast ty AND 0xF)))"
  using assms by (simp add: nan_set_type_def)

lemma nan_get_value_eq:
  assumes "u64_of_f64 (nan_v nan) = Some bits"
  shows "nan_get_value nan =
    Some (if bits AND push_bit 63 1 \<noteq> 0 then - (bits AND VALUE_MASK) else bits AND VALUE_MASK)"
  using assms by (simp add: nan_get_value_def)

lemma c_abs_0: "c_abs (ucast (0 :: 64 word)) = Some 0"
  by (simp add: c_abs_def)

lemma c_abs_1: "c_abs (ucast (1 :: 64 word)) = Some 1"
  by (simp add: c_abs_def)

lemma c_abs_1024: "c_abs (ucast (1024 :: 64 word)) = Some 1024"
  by (simp add: c_abs_def)

lemma c_abs_m1024: "c_abs (ucast (- 1024 :: 64 word)) = Some 1024"
  by (simp add: c_abs_def)

lemma nan_set_value_0: "nan_set_value nan_make_inf 0 = Some 0x43EFFE0000000000"
  by (simp add: nan_set_value_eq [OF nan_make_inf_bits c_abs_0] VALUE_MASK_val f64_eval)

lemma nan_set_value_1: "nan_set_value nan_make_inf 1 = Some 0x43DFFC0000000000"
  by (simp add: nan_set_value_eq [OF nan_make_inf_bits c_abs_1] VALUE_MASK_val f64_eval)

lemma nan_set_value_1024: "nan_set_value nan_make_inf 1024 = Some 0x43DFFC0000000001"
  by (simp add: nan_set_value_eq [OF nan_make_inf_bits c_abs_1024] VALUE_MASK_val f64_eval)

lemma nan_set_value_m1024: "nan_set_value nan_make_inf (- 1024) = Some 0x43DFFC0000000001"
  by (simp add: nan_set_value_eq [OF nan_make_inf_bits c_abs_m1024] VALUE_MASK_val f64_eval)

lemma bits_zero_box: "u64_of_f64 0x43EFFE0000000000 = Some 0xFFF0000000000000"
  by (simp add: f64_eval)

lemma bits_low_box: "u64_of_f64 0x43DFFC0000000000 = Some 0x7FF0000000000000"
  by (simp add: f64_eval)

lemma bits_1024_box: "u64_of_f64 0x43DFFC0000000001 = Some 0x7FF0000000000400"
  by (simp add: f64_eval)

text \<open>
  Every non-zero byte is below half of the last place a double of this magnitude keeps,
  so \<open>nan_set_value\<close> stores none of it.
\<close>

lemma nan_set_value_byte:
  fixes b :: "8 word"
  assumes "b \<noteq> 0"
  shows "nan_set_value nan_make_inf (ucast b) = Some 0x43DFFC0000000000"
proof -
  have nz: "(ucast b :: 64 word) \<noteq> 0"
    using assms by (simp add: ucast_byte_eq_0)
  have "uint b \<noteq> - 2147483648"
    using uint_ge_0 [of b] by arith
  then have ab: "c_abs (ucast b) = Some (ucast b)"
    by (simp add: c_abs_def sint_ucast_byte)
  have k: "unat b < 256"
    using unsigned_less [of b, where ?'a = nat] by simp
  have d: "(0x7FF0000000000000 + unat b) div 1024 = 0x1FFC0000000000"
    and m: "(0x7FF0000000000000 + unat b) mod 1024 = unat b"
    using k div_mod_1024 [of "unat b" "0x1FFC0000000000"] by simp_all
  have "f64_of_u64 (word_of_nat (0x7FF0000000000000 + unat b)) = 0x43DFFC0000000000"
    using k by (subst f64_of_u64_round_down) (simp_all add: d m)
  moreover have "(0x7FF0000000000000 :: 64 word) AND NOT VALUE_MASK = 0x7FF0000000000000"
    by (simp add: VALUE_MASK_val)
  ultimately show ?thesis
    using ab nz
    by (simp add: nan_set_value_eq [OF nan_make_inf_bits] ucast_byte_64_32
        scast_ucast_byte ucast_byte_and_VALUE_MASK exp_bits_or_byte)
qed

lemma nan_set_type_I64_zero:
  "nan_set_type 0x43EFFE0000000000 TYPE_I64 = Some 0x43EFFE0000000000"
  by (simp add: nan_set_type_eq [OF bits_zero_box] TYPE_MASK_val TYPE_I64_def f64_eval)

lemma nan_set_type_U64_zero:
  "nan_set_type 0x43EFFE0000000000 TYPE_U64 = Some 0x43EFFE2000000000"
  by (simp add: nan_set_type_eq [OF bits_zero_box] TYPE_MASK_val TYPE_U64_def f64_eval)

lemma nan_set_type_U8_zero:
  "nan_set_type 0x43EFFE0000000000 TYPE_U8 = Some 0x43EFFE8000000000"
  by (simp add: nan_set_type_eq [OF bits_zero_box] TYPE_MASK_val TYPE_U8_def f64_eval)

lemma nan_set_type_I64_low:
  "nan_set_type 0x43DFFC0000000000 TYPE_I64 = Some 0x43DFFC0000000000"
  by (simp add: nan_set_type_eq [OF bits_low_box] TYPE_MASK_val TYPE_I64_def f64_eval)

lemma nan_set_type_I64_1024:
  "nan_set_type 0x43DFFC0000000001 TYPE_I64 = Some 0x43DFFC0000000001"
  by (simp add: nan_set_type_eq [OF bits_1024_box] TYPE_MASK_val TYPE_I64_def f64_eval)

lemma nan_set_type_U64_1024:
  "nan_set_type 0x43DFFC0000000001 TYPE_U64 = Some 0x43DFFC4000000001"
  by (simp add: nan_set_type_eq [OF bits_1024_box] TYPE_MASK_val TYPE_U64_def f64_eval)

lemma nan_set_type_U8_low:
  "nan_set_type 0x43DFFC0000000000 TYPE_U8 = Some 0x43DFFD0000000000"
  by (simp add: nan_set_type_eq [OF bits_low_box] TYPE_MASK_val TYPE_U8_def f64_eval)

lemma nan_from_i64_0: "nan_from_i64 0 = Some \<lparr>nan_v = 0x43EFFE0000000000\<rparr>"
  by (simp add: nan_from_i64_def nan_set_value_0 nan_set_type_I64_zero)

lemma nan_from_u64_0: "nan_from_u64 0 = Some \<lparr>nan_v = 0x43EFFE2000000000\<rparr>"
  by (simp add: nan_from_u64_def nan_set_value_0 nan_set_type_U64_zero)

lemma nan_from_i64_1: "nan_from_i64 1 = Some \<lparr>nan_v = 0x43DFFC0000000000\<rparr>"
  by (simp add: nan_from_i64_def nan_set_value_1 nan_set_type_I64_low)

lemma nan_from_i64_m1024: "nan_from_i64 (- 1024) = Some \<lparr>nan_v = 0x43DFFC0000000001\<rparr>"
  by (simp add: nan_from_i64_def nan_set_value_m1024 nan_set_type_I64_1024)

lemma nan_from_u64_1024: "nan_from_u64 1024 = Some \<lparr>nan_v = 0x43DFFC4000000001\<rparr>"
  by (simp add: nan_from_u64_def nan_set_value_1024 nan_set_type_U64_1024)

lemma nan_from_u8_val:
  "nan_from_u8 b = Some \<lparr>nan_v = (if b = 0 then 0x43EFFE8000000000 else 0x43DFFD0000000000)\<rparr>"
proof (cases "b = 0")
  case True
  then show ?thesis
    by (simp add: nan_from_u8_def nan_set_value_0 nan_set_type_U8_zero)
next
  case False
  then show ?thesis
    by (simp add: nan_from_u8_def nan_set_value_byte nan_set_type_U8_low)
qed

lemmas nan_is_f64_eval =
  nan_is_f64_def nan_is_nan_def f64_ne_def f64_is_nan_def f64_is_zero_def f64_exp_def f64_man_def

lemma nan_get_value_i64_0: "nan_get_value \<lparr>nan_v = 0x43EFFE0000000000\<rparr> = Some 0"
  by (simp add: nan_get_value_eq [of _ "0xFFF0000000000000"] bits_zero_box VALUE_MASK_val)

lemma bits_u64_0_box: "u64_of_f64 0x43EFFE2000000000 = Some 0xFFF1000000000000"
  by (simp add: f64_eval)

lemma nan_get_value_u64_0: "nan_get_value \<lparr>nan_v = 0x43EFFE2000000000\<rparr> = Some 0"
  by (simp add: nan_get_value_eq [of _ "0xFFF1000000000000"] bits_u64_0_box VALUE_MASK_val)

lemma bits_u8_0_box: "u64_of_f64 0x43EFFE8000000000 = Some 0xFFF4000000000000"
  by (simp add: f64_eval)

lemma nan_get_value_u8_0: "nan_get_value \<lparr>nan_v = 0x43EFFE8000000000\<rparr> = Some 0"
  by (simp add: nan_get_value_eq [of _ "0xFFF4000000000000"] bits_u8_0_box VALUE_MASK_val)

lemma bits_u8_low_box: "u64_of_f64 0x43DFFD0000000000 = Some 0x7FF4000000000000"
  by (simp add: f64_eval)

lemma nan_get_value_u8_low: "nan_get_value \<lparr>nan_v = 0x43DFFD0000000000\<rparr> = Some 0"
  by (simp add: nan_get_value_eq [of _ "0x7FF4000000000000"] bits_u8_low_box VALUE_MASK_val)

lemma nan_get_value_i64_low: "nan_get_value \<lparr>nan_v = 0x43DFFC0000000000\<rparr> = Some 0"
  by (simp add: nan_get_value_eq [of _ "0x7FF0000000000000"] bits_low_box VALUE_MASK_val)

lemma nan_get_value_i64_1024: "nan_get_value \<lparr>nan_v = 0x43DFFC0000000001\<rparr> = Some 1024"
  by (simp add: nan_get_value_eq [of _ "0x7FF0000000000400"] bits_1024_box VALUE_MASK_val)

section \<open>The integer boxes are never NaNs\<close>

lemma bit_width_bounds:
  assumes "0 < n"
  shows "\<exists>k. bit_width n = Suc k \<and> 2 ^ k \<le> n \<and> n < 2 ^ Suc k"
proof -
  from assms have "1 \<le> n" by simp
  then obtain k where "2 ^ k \<le> n \<and> n < 2 ^ (k + 1)"
    using ex_power_ivl1 [of 2 n] by auto
  then have k: "2 ^ k \<le> n" "n < 2 ^ Suc k" by simp_all
  then have "bit_width n = Suc k" by (rule bit_width_unique)
  with k show ?thesis by blast
qed

lemma f64_exp_fields:
  assumes "E \<le> 1086" and "M \<le> 2 ^ 52"
  shows "f64_exp (word_of_nat (E * 2 ^ 52 + M)) \<le> 1087"
proof -
  let ?X = "E * 2 ^ 52 + M"
  have "?X \<le> 1086 * 2 ^ 52 + 2 ^ 52"
    using assms by (intro add_mono mult_right_mono) simp_all
  also have "\<dots> < (2::nat) ^ 64" by simp
  finally have "?X < 2 ^ LENGTH(64)" by simp
  then have u: "unat (word_of_nat ?X :: 64 word) = ?X"
    by (rule of_nat_inverse [OF refl])
  have "?X div 2 ^ 52 = E + M div 2 ^ 52" by simp
  moreover have "M div 2 ^ 52 \<le> 1"
    using assms(2) div_le_mono [of M "2 ^ 52" "2 ^ 52"] by simp
  ultimately have "?X div 2 ^ 52 \<le> 1087" using assms(1) by linarith
  then have "(?X div 2 ^ 52) mod 2 ^ 11 \<le> 1087"
    using mod_less_eq_dividend [of "?X div 2 ^ 52" "2 ^ 11"] by linarith
  then show ?thesis
    unfolding f64_exp_def u .
qed

lemma f64_of_u64_exp: "f64_exp (f64_of_u64 w) \<le> 1087"
proof (cases "unat w = 0")
  case True
  then show ?thesis by (simp add: f64_of_u64_def f64_exp_def)
next
  case False
  let ?n = "unat w"
  from False obtain k where k: "bit_width ?n = Suc k" "2 ^ k \<le> ?n" "?n < 2 ^ Suc k"
    using bit_width_bounds [of ?n] by auto
  have "?n < 2 ^ 64" using unsigned_less [of w, where ?'a = nat] by simp
  with k(2) have "(2::nat) ^ k < 2 ^ 64" by (rule le_less_trans)
  then have "k < 64"
    using power_less_imp_less_exp [of 2 k 64] by simp
  then have k63: "k \<le> 63" by simp
  show ?thesis
  proof (cases "k \<le> 52")
    case True
    have "?n * 2 ^ (52 - k) < 2 ^ Suc k * 2 ^ (52 - k)"
      using k(3) by (intro mult_strict_right_mono) simp_all
    also have "\<dots> = 2 ^ (Suc k + (52 - k))" by (rule power_add [symmetric])
    also have "Suc k + (52 - k) = 53" using True by simp
    finally have "?n * 2 ^ (52 - k) - 2 ^ 52 \<le> 2 ^ 52" by simp
    moreover have "k + 1023 \<le> 1086" using True by simp
    ultimately have "f64_exp (word_of_nat ((k + 1023) * 2 ^ 52 + (?n * 2 ^ (52 - k) - 2 ^ 52))) \<le> 1087"
      by (rule f64_exp_fields [rotated])
    with False True k(1) show ?thesis
      by (simp add: f64_of_u64_def Let_def)
  next
    case gt: False
    let ?s = "k - 52"
    let ?q = "?n div 2 ^ ?s"
    have "Suc k = 53 + ?s" using gt by simp
    then have "(2::nat) ^ Suc k = 2 ^ (53 + ?s)" by (simp only:)
    also have "\<dots> = 2 ^ 53 * 2 ^ ?s" by (rule power_add)
    finally have "(2::nat) ^ Suc k = 2 ^ 53 * 2 ^ ?s" .
    with k(3) have "?n < 2 ^ 53 * 2 ^ ?s" by simp
    then have q: "?q < 2 ^ 53"
      by (simp add: less_mult_imp_div_less)
    have E: "k + 1023 \<le> 1086" using k63 by simp
    have a: "f64_exp (word_of_nat ((k + 1023) * 2 ^ 52 + (?q - 2 ^ 52))) \<le> 1087"
      using q by (intro f64_exp_fields [OF E]) simp
    have b: "f64_exp (word_of_nat ((k + 1023) * 2 ^ 52 + (?q + 1 - 2 ^ 52))) \<le> 1087"
      using q by (intro f64_exp_fields [OF E]) simp
    from False gt k(1) a b show ?thesis
      by (simp add: f64_of_u64_def Let_def)
  qed
qed

text \<open>
  No \<open>uint64_t\<close> converts to a NaN: the exponent field of the result is at most
  1087, and every box that the integer constructors return is such a result.
\<close>

lemma f64_of_u64_not_nan: "\<not> f64_is_nan (f64_of_u64 w)"
  using f64_of_u64_exp [of w] by (simp add: f64_is_nan_def)

lemma nan_is_f64_iff: "nan_is_f64 nan \<longleftrightarrow> \<not> f64_is_nan (nan_v nan)"
  by (simp add: nan_is_f64_def nan_is_nan_def f64_ne_def)

lemma nan_set_type_not_nan: "nan_set_type x ty = Some d \<Longrightarrow> \<not> f64_is_nan d"
  by (auto simp: nan_set_type_def f64_of_u64_not_nan split: Option.bind_splits)

lemma nan_from_i64_is_f64: "nan_from_i64 i = Some box \<Longrightarrow> nan_is_f64 box"
  by (auto simp: nan_from_i64_def nan_is_f64_iff split: Option.bind_splits
      dest: nan_set_type_not_nan)

lemma nan_from_u64_is_f64: "nan_from_u64 i = Some box \<Longrightarrow> nan_is_f64 box"
  by (auto simp: nan_from_u64_def nan_is_f64_iff split: Option.bind_splits
      dest: nan_set_type_not_nan)

lemma nan_from_u8_is_f64: "nan_from_u8 i = Some box \<Longrightarrow> nan_is_f64 box"
  by (auto simp: nan_from_u8_def nan_is_f64_iff split: Option.bind_splits
      dest: nan_set_type_not_nan)

lemma nan_is_f64_of_nan_from_f64: "nan_is_f64 (nan_from_f64 f) \<longleftrightarrow> \<not> f64_is_nan f"
  by (simp add: nan_is_f64_iff nan_from_f64_def)


text \<open>
  Claim C1, evaluated on the code. The claim says that \<open>nan_is_f64\<close> is false for
  every value made by \<open>nan_from_i64\<close>, \<open>nan_from_u64\<close> or \<open>nan_from_u8\<close>. On the
  code it is true for them: the boxes of the 64-bit integer 0, the unsigned integer 1024
  and the byte 7 are ordinary finite doubles, so \<open>nan_is_nan\<close> is false and
  \<open>nan_is_f64\<close> is true.
\<close>

theorem nan_is_f64_of_boxed_integers:
  "map_option nan_is_f64 (nan_from_i64 0) = Some True
   \<and> map_option nan_is_f64 (nan_from_u64 1024) = Some True
   \<and> map_option nan_is_f64 (nan_from_u8 7) = Some True"
  by (simp add: nan_from_i64_0 nan_from_u64_1024 nan_from_u8_val nan_is_f64_eval)

text \<open>
  Claim C2, evaluated on the code. The claim says that \<open>nan_as_i64\<close> of
  \<open>nan_from_i64 i\<close> is \<open>i\<close> whenever \<open>|i| < 2^48\<close>. On the code the box of -1024
  decodes to 1024 (the sign of a non-zero integer is not stored) and the box of 1 decodes
  to 0 (the low ten bits of the pattern do not survive the conversion to \<open>double\<close>).
\<close>

theorem nan_as_i64_of_nan_from_i64:
  "Option.bind (nan_from_i64 (- 1024)) nan_as_i64 = Some 1024
   \<and> Option.bind (nan_from_i64 1) nan_as_i64 = Some 0"
  by (simp add: nan_from_i64_m1024 nan_from_i64_1 nan_as_i64_def
      nan_get_value_i64_1024 nan_get_value_i64_low)

section \<open>The integer read back from the box of zero\<close>

lemma mod_mult_add: "m < d \<Longrightarrow> (a * d + m) mod d = (m::nat)"
  by simp

lemma bit_sign_mask: "bit (push_bit 63 1 :: 64 word) n \<longleftrightarrow> n = 63"
  unfolding bit_push_bit_iff bit_1_iff by (auto simp: possible_bit_word)

text \<open>
  An integer with bit 63 set whose low eleven bits are zero has at most 53 significant
  bits: the conversion to \<open>double\<close> and back returns it.
\<close>

lemma f64_roundtrip_top:
  assumes lo: "2 ^ 63 \<le> n" and hi: "n < 2 ^ 64" and dv: "2 ^ 11 dvd n"
  shows "u64_of_f64 (f64_of_u64 (word_of_nat n)) = Some (word_of_nat n)"
proof -
  let ?q = "n div 2 ^ 11"
  let ?X = "1086 * 2 ^ 52 + (?q - 2 ^ 52)"
  define d :: "64 word" where "d = word_of_nat ?X"
  have u: "unat (word_of_nat n :: 64 word) = n"
    using hi by (intro of_nat_inverse [OF refl]) simp
  have w: "bit_width n = 64"
    using bit_width_unique [of 63 n] lo hi by simp
  have r: "n mod 2 ^ 11 = 0"
    using dv by (simp add: mod_eq_0_iff_dvd)
  have n: "n = ?q * 2 ^ 11"
    using dv by simp
  have qlo: "2 ^ 52 \<le> ?q"
    using lo div_le_mono [of "2 ^ 63" n "2 ^ 11"] by simp
  have qhi: "?q < 2 ^ 53"
    using hi by (intro less_mult_imp_div_less) simp
  from lo have "n \<noteq> 0" by auto
  then have D: "f64_of_u64 (word_of_nat n) = d"
    using r by (simp add: f64_of_u64_def u w Let_def d_def)
  have X: "?X = 1085 * 2 ^ 52 + ?q"
    using qlo by simp
  have Xlt: "?X < 2 ^ 63"
    using qhi unfolding X by simp
  then have "?X < 2 ^ LENGTH(64)" by simp
  then have uX: "unat d = ?X"
    unfolding d_def by (rule of_nat_inverse [OF refl])
  have dX: "?X div 2 ^ 52 = 1086"
    using qlo qhi unfolding X by simp
  have mX: "?X mod 2 ^ 52 = ?q - 2 ^ 52"
    using qhi mod_mult_add [of "?q - 2 ^ 52" "2 ^ 52" 1086] by simp
  have "bit (unat d) 63 \<longleftrightarrow> bit d 63"
    by (simp add: bit_unsigned_iff)
  moreover have "\<not> bit ?X 63"
    using Xlt by (simp add: bit_iff_odd)
  ultimately have sg: "\<not> f64_sign d"
    unfolding f64_sign_def uX by simp
  have e: "f64_exp d = 1086"
    unfolding f64_exp_def uX dX by simp
  have m: "f64_man d = ?q - 2 ^ 52"
    unfolding f64_man_def uX mX ..
  have "u64_of_f64 d = Some (word_of_nat ((2 ^ 52 + (?q - 2 ^ 52)) * 2 ^ 11))"
    by (simp add: u64_of_f64_def e m sg Let_def)
  moreover have "(2 ^ 52 + (?q - 2 ^ 52)) * 2 ^ 11 = n"
    using qlo n by simp
  ultimately show ?thesis
    unfolding D by (simp only:)
qed

text \<open>The pattern that \<open>nan_set_value\<close> builds for the value 0.\<close>

lemma zero_pattern:
  fixes bits :: "64 word"
  defines "P \<equiv> (bits AND NOT VALUE_MASK) OR push_bit 63 1"
  shows "2 ^ 63 \<le> unat P" and "2 ^ 11 dvd unat P" and "P AND VALUE_MASK = 0"
    and "P AND push_bit 63 1 \<noteq> 0" and "bit P 63"
proof -
  show b: "bit P 63"
    by (simp add: P_def bit_simps)
  have "push_bit 63 1 \<le> P"
    unfolding P_def by (rule le_word_or1)
  then have "unat (push_bit 63 1 :: 64 word) \<le> unat P"
    by (simp add: word_le_nat_alt)
  then show "2 ^ 63 \<le> unat P" by simp
  show z: "P AND VALUE_MASK = 0"
    unfolding P_def VALUE_MASK_mask
    by (rule bit_word_eqI)
      (auto simp only: bit_and_iff bit_or_iff bit_not_iff bit_mask_iff bit_sign_mask bit_0_eq)
  then have "P AND mask 48 = 0"
    by (simp only: VALUE_MASK_mask)
  then have "2 ^ 48 dvd unat P"
    by (simp only: and_mask_dvd_nat)
  moreover have "(2::nat) ^ 11 dvd 2 ^ 48"
    by (rule le_imp_power_dvd) simp
  ultimately show "2 ^ 11 dvd unat P"
    by (rule dvd_trans [rotated])
  show "P AND push_bit 63 1 \<noteq> 0"
  proof
    assume "P AND push_bit 63 1 = 0"
    then have "bit (P AND push_bit 63 1) 63 = bit (0 :: 64 word) 63" by simp
    with b show False by (simp add: bit_simps)
  qed
qed

lemma nan_set_value_zero:
  assumes "u64_of_f64 x = Some bits"
  shows "\<exists>z pat. nan_set_value x 0 = Some z \<and> u64_of_f64 z = Some pat \<and> bit pat 63
           \<and> nan_get_value \<lparr>nan_v = z\<rparr> = Some 0"
proof -
  define P where "P = (bits AND NOT VALUE_MASK) OR push_bit 63 1"
  note zp = zero_pattern [of bits, folded P_def]
  have "unat P < 2 ^ 64"
    using unsigned_less [of P, where ?'a = nat] by simp
  with zp(1,2) have "u64_of_f64 (f64_of_u64 (word_of_nat (unat P))) = Some (word_of_nat (unat P))"
    by (intro f64_roundtrip_top)
  then have rt: "u64_of_f64 (f64_of_u64 P) = Some P" by simp
  have sv: "nan_set_value x 0 = Some (f64_of_u64 P)"
    using assms by (simp add: nan_set_value_def c_abs_def P_def)
  have gv: "nan_get_value \<lparr>nan_v = f64_of_u64 P\<rparr> = Some 0"
    using rt zp(3,4) by (simp add: nan_get_value_def)
  from sv rt zp(5) gv show ?thesis by blast
qed

lemma c_abs_2p32: "c_abs (ucast (4294967296 :: 64 word)) = Some 0"
  by (simp add: c_abs_def)

lemma nan_set_value_2p32: "nan_set_value nan_make_inf 4294967296 = Some 0x43DFFC0000000000"
  by (simp add: nan_set_value_eq [OF nan_make_inf_bits c_abs_2p32] VALUE_MASK_val f64_eval)

lemma nan_from_i64_2p32: "nan_from_i64 4294967296 = Some \<lparr>nan_v = 0x43DFFC0000000000\<rparr>"
  by (simp add: nan_from_i64_def nan_set_value_2p32 nan_set_type_I64_low)

text \<open>
  Claim C8, evaluated on the code. The claim says that a box whose encoded magnitude is
  zero has bit 63 of its 64-bit pattern forced to 1, as an encoding of its own, and
  decodes to 0. On the code the boxes of the integer 0 made by \<open>nan_from_i64\<close> and
  \<open>nan_from_u64\<close> are positive finite doubles: bit 63 of their bit patterns is clear,
  since the bit that \<open>nan_set_value\<close> sets goes through a conversion of the value to
  \<open>double\<close>. The boxes of 4294967296 and of 1 also store the magnitude zero, with
  bit 63 clear both in the box and in the integer \<open>nan_get_value\<close> reads back, and
  decode to 0 as the box of 0 does: the encoding of zero is not its own.
\<close>

theorem zero_box_sign_bit_clear:
  "nan_from_i64 0 = Some \<lparr>nan_v = 0x43EFFE0000000000\<rparr>
   \<and> \<not> bit (0x43EFFE0000000000 :: 64 word) 63
   \<and> nan_from_u64 0 = Some \<lparr>nan_v = 0x43EFFE2000000000\<rparr>
   \<and> \<not> bit (0x43EFFE2000000000 :: 64 word) 63
   \<and> nan_from_i64 4294967296 = Some \<lparr>nan_v = 0x43DFFC0000000000\<rparr>
   \<and> nan_from_i64 1 = Some \<lparr>nan_v = 0x43DFFC0000000000\<rparr>
   \<and> \<not> bit (0x43DFFC0000000000 :: 64 word) 63
   \<and> u64_of_f64 0x43DFFC0000000000 = Some 0x7FF0000000000000
   \<and> \<not> bit (0x7FF0000000000000 :: 64 word) 63
   \<and> nan_get_value \<lparr>nan_v = 0x43DFFC0000000000\<rparr> = Some 0
   \<and> nan_get_value \<lparr>nan_v = 0x43EFFE0000000000\<rparr> = Some 0"
  by (simp add: nan_from_i64_0 nan_from_u64_0 nan_from_i64_2p32 nan_from_i64_1 bits_low_box
      nan_get_value_i64_low nan_get_value_i64_0 bit_iff_odd drop_bit_eq_div)

text \<open>
  Claim C10. \<open>nan_as_u8\<close> returns a \<open>bool\<close>, so the byte its caller receives is 0 or
  1; for every byte \<open>b \<ge> 2\<close> the result of \<open>nan_as_u8\<close> on \<open>nan_from_u8 b\<close>
  differs from \<open>b\<close>. Both calls are defined for every byte.
\<close>

theorem nan_as_u8_of_nan_from_u8:
  "\<exists>box r. nan_from_u8 b = Some box \<and> nan_as_u8 box = Some r
     \<and> (of_bool r :: 8 word) \<in> {0, 1}
     \<and> (2 \<le> b \<longrightarrow> (of_bool r :: 8 word) \<noteq> b)"
  by (cases "b = 0")
    (auto simp: nan_from_u8_val nan_as_u8_def nan_get_value_u8_0 nan_get_value_u8_low)

theorem nan_as_u8_of_nan_from_u8_witness:
  "\<exists>box r. nan_from_u8 7 = Some box \<and> nan_as_u8 box = Some r
     \<and> (of_bool r :: 8 word) \<in> {0, 1}
     \<and> (2::8 word) \<le> 7 \<and> (of_bool r :: 8 word) \<noteq> 7"
  using nan_as_u8_of_nan_from_u8 [of 7] by simp

section \<open>Properties of the memory accesses\<close>

lemma replicate_14: "replicate 14 x = [x, x, x, x, x, x, x, x, x, x, x, x, x, x]"
  by (simp add: numeral_eq_Suc)

lemma replicate_13: "replicate 13 x = [x, x, x, x, x, x, x, x, x, x, x, x, x]"
  by (simp add: numeral_eq_Suc)

lemma replicate_12: "replicate 12 x = [x, x, x, x, x, x, x, x, x, x, x, x]"
  by (simp add: numeral_eq_Suc)

lemmas mem_eval =
  store_bytes_def load_byte_def memcpy_local_def c_strlen_def c_str_bytes_def
  INST_STR_CAP_def globals_init_def Let_def replicate_14 replicate_13 replicate_12

lemma bytes_of_u64_1: "bytes_of_u64 1 = [1, 0, 0, 0, 0, 0, 0, 0]"
  by (simp add: bytes_of_u64_def upt_conv_Cons)

lemma bytes_of_u64_2: "bytes_of_u64 2 = [2, 0, 0, 0, 0, 0, 0, 0]"
  by (simp add: bytes_of_u64_def upt_conv_Cons drop_bit_eq_div)

lemma bytes_of_u64_7: "bytes_of_u64 7 = [7, 0, 0, 0, 0, 0, 0, 0]"
  by (simp add: bytes_of_u64_def upt_conv_Cons drop_bit_eq_div)

lemma store_bytes_length: "store_bytes b off bs = Inr b' \<Longrightarrow> length b' = length b"
  by (auto simp: store_bytes_def split: if_splits)

lemma store_bytes_nth_below:
  "store_bytes b off bs = Inr b' \<Longrightarrow> i < off \<Longrightarrow> b' ! i = b ! i"
  by (auto simp: store_bytes_def nth_append split: if_splits)

lemma store_bytes_nth_at: "store_bytes b off (x # xs) = Inr b' \<Longrightarrow> b' ! off = x"
  by (auto simp: store_bytes_def nth_append split: if_splits)

section \<open>Properties of the codec\<close>

lemma inst_v_type_num_less: "inst_v_type_num t < 6"
  by (cases t) simp_all

lemma inst_v_type_byte_inj:
  "(of_nat (inst_v_type_num s) :: 8 word) = of_nat (inst_v_type_num t) \<Longrightarrow> s = t"
  by (cases s; cases t) simp_all

text \<open>
  Whatever the operand, a call of \<open>inst_value_to_bytes\<close> that returns has stored the
  operand's tag in byte 1 of the static array.
\<close>

lemma inst_value_to_bytes_tag:
  assumes "inst_value_to_bytes x g = Inr (p, g')"
  shows "ret g' ! 1 = of_nat (inst_v_type_num (inst_value_ty x))"
proof -
  let ?t = "of_nat (inst_v_type_num (inst_value_ty x)) :: 8 word"
  from assms obtain r1 where r1: "store_bytes (ret g) (Suc 0) [?t] = Inr r1"
    by (auto simp: inst_value_to_bytes_def Let_def split: sum.splits)
  then have t: "r1 ! Suc 0 = ?t"
    by (rule store_bytes_nth_at)
  have keep: "b' ! Suc 0 = r1 ! Suc 0" if "store_bytes r1 (Suc (Suc 0)) bs = Inr b'" for bs b'
    using that by (rule store_bytes_nth_below) simp
  have keep3: "b'' ! Suc 0 = r1 ! Suc 0"
    if "store_bytes r1 (Suc (Suc 0)) bs = Inr b'"
      and "store_bytes b' (Suc (Suc (Suc 0))) cs = Inr b''" for bs cs b' b''
    using that store_bytes_nth_below [of b' "Suc (Suc (Suc 0))" cs b'' "Suc 0"] keep by simp
  from assms r1 have "ret g' ! Suc 0 = r1 ! Suc 0"
    by (cases x)
      (auto simp: inst_value_to_bytes_def Let_def split: sum.splits if_splits
        dest: keep keep3)
  with t show ?thesis by simp
qed

text \<open>What the decoder does in each of its cases.\<close>

lemma decode_short_header:
  "length bytes < 2 \<Longrightarrow> inst_value_from_bytes bytes r = Inl OutOfBoundsRead"
  by (cases bytes) (auto simp: inst_value_from_bytes_def load_byte_def Let_def)

lemma decode_fixed_payload:
  assumes "2 \<le> length bytes" and "unat (bytes ! 1) \<in> {0, 2, 3, 4}"
  shows "inst_value_from_bytes bytes r = Inl OutOfBoundsWrite"
  using assms
  by (auto simp: inst_value_from_bytes_def load_byte_def memcpy_local_def Let_def)

lemma decode_none:
  assumes "2 \<le> length bytes" and "unat (bytes ! 1) = 1"
  shows "inst_value_from_bytes bytes r = Inr (0, r)"
  using assms
  by (auto simp: inst_value_from_bytes_def load_byte_def Let_def)

lemma decode_str_no_length_byte:
  assumes "length bytes = 2" and "unat (bytes ! 1) = 5"
  shows "inst_value_from_bytes bytes r = Inl OutOfBoundsRead"
  using assms
  by (auto simp: inst_value_from_bytes_def load_byte_def Let_def)

lemma decode_str:
  assumes "3 \<le> length bytes" and "unat (bytes ! 1) = 5"
  shows "inst_value_from_bytes bytes r =
    (if 16 < 3 + unat (bytes ! 2) then Inl OutOfBoundsWrite
     else if length bytes < 3 + (3 + unat (bytes ! 2)) then Inl OutOfBoundsRead
     else Inr (0, inst_new (ucast (bytes ! 0)) (inst_value_new_str Dangling)))"
  using assms
  by (auto simp: inst_value_from_bytes_def load_byte_def memcpy_local_def Let_def
      numeral_2_eq_2 numeral_3_eq_3)

lemma decode_unknown_tag:
  assumes "2 \<le> length bytes" and "5 < unat (bytes ! 1)"
  shows "inst_value_from_bytes bytes r = Inr (1, r)"
  using assms
  by (auto simp: inst_value_from_bytes_def load_byte_def Let_def)

text \<open>
  Claim C3, evaluated on the code. The claim says that decoding the bytes of an encoded
  instruction gives the instruction back, for every operand variant. On the code:
  the record of \<open>halt\<close> with no operand decodes with return value 0 and the caller's
  \<open>Inst\<close> left as it was (here a \<open>push\<close> of 7), so no \<open>halt\<close> comes back; the
  record of \<open>push\<close> with the Int64 operand 7 makes the decoder copy ten bytes into an
  eight-byte local; the record of \<open>label\<close> with the string \<open>abc\<close> decodes to an
  instruction that holds the address of a local array of the decoder.
\<close>

theorem decode_of_encode:
  "inst_to_bytes \<lparr>inst_ty = halt, inst_v = V_NONE\<rparr> globals_init
     = Inr (RET, \<lparr>ret = [26, 1, 0, 0, 0, 0, 0, 0, 0, 0, 0, 0, 0, 0], stderr = []\<rparr>)
   \<and> inst_from_bytes [26, 1, 0, 0, 0, 0, 0, 0, 0, 0, 0, 0, 0, 0]
         \<lparr>inst_ty = push, inst_v = V_I64 7\<rparr>
     = Inr (0, \<lparr>inst_ty = push, inst_v = V_I64 7\<rparr>)
   \<and> inst_to_bytes \<lparr>inst_ty = push, inst_v = V_I64 7\<rparr> globals_init
     = Inr (RET, \<lparr>ret = [0, 2, 7, 0, 0, 0, 0, 0, 0, 0, 0, 0, 0, 0], stderr = []\<rparr>)
   \<and> inst_from_bytes [0, 2, 7, 0, 0, 0, 0, 0, 0, 0, 0, 0, 0, 0]
         \<lparr>inst_ty = halt, inst_v = V_NONE\<rparr>
     = Inl OutOfBoundsWrite
   \<and> inst_to_bytes \<lparr>inst_ty = label, inst_v = V_STR (Chars [0x61, 0x62, 0x63])\<rparr> globals_init
     = Inr (RET, \<lparr>ret = [24, 5, 3, 0x61, 0x62, 0x63, 0, 0, 0, 0, 0, 0, 0, 0], stderr = []\<rparr>)
   \<and> inst_from_bytes [24, 5, 3, 0x61, 0x62, 0x63, 0, 0, 0, 0, 0, 0, 0, 0]
         \<lparr>inst_ty = halt, inst_v = V_NONE\<rparr>
     = Inr (0, \<lparr>inst_ty = label, inst_v = V_STR Dangling\<rparr>)"
  by (simp add: inst_to_bytes_def inst_value_to_bytes_def inst_type_to_bytes_def
      inst_from_bytes_def inst_value_from_bytes_def inst_new_def inst_value_new_str_def
      halt_def push_def label_def mem_eval bytes_of_u64_7)

text \<open>
  Claim C4 as stated fails on the code: given the four bytes of a string record cut
  short (tag 5, length byte 4, one byte of payload) the decoder does not return an error;
  it reads past the end of the array.
\<close>

theorem decode_truncated_counterexample:
  "inst_value_from_bytes [0, 5, 4, 0x61] \<lparr>inst_ty = halt, inst_v = V_NONE\<rparr>
     = Inl OutOfBoundsRead"
  by (simp add: inst_value_from_bytes_def mem_eval)

text \<open>
  Claim C4, amended. The decoder takes no length and checks none: its only non-zero
  return value is 1, for an operand tag outside 0..5, and then the caller's \<open>Inst\<close> is
  untouched. On an array shorter than the record that its header implies (two header
  bytes; eight payload bytes for the tags 0, 2, 3, 4; for the tag 5 a length byte and
  that many bytes) the call has no return value at all: it accesses memory out of
  bounds.
\<close>

theorem decode_checks_no_length:
  "(inst_value_from_bytes bytes r = Inr (c, r') \<and> c \<noteq> 0
      \<longrightarrow> c = 1 \<and> r' = r \<and> 2 \<le> length bytes \<and> 5 < unat (bytes ! 1))
   \<and> (length bytes < 2 \<longrightarrow> inst_value_from_bytes bytes r = Inl OutOfBoundsRead)
   \<and> (2 \<le> length bytes \<and> unat (bytes ! 1) \<in> {0, 2, 3, 4} \<and> length bytes < 2 + 8
      \<longrightarrow> (\<exists>f. inst_value_from_bytes bytes r = Inl f))
   \<and> (2 \<le> length bytes \<and> unat (bytes ! 1) = 5 \<and> length bytes < 3
      \<longrightarrow> inst_value_from_bytes bytes r = Inl OutOfBoundsRead)
   \<and> (3 \<le> length bytes \<and> unat (bytes ! 1) = 5 \<and> length bytes < 3 + unat (bytes ! 2)
      \<longrightarrow> (\<exists>f. inst_value_from_bytes bytes r = Inl f))"
proof -
  let ?t = "unat (bytes ! 1)"
  have codes: "c = 1 \<and> r' = r \<and> 2 \<le> length bytes \<and> 5 < ?t"
    if res: "inst_value_from_bytes bytes r = Inr (c, r')" and c: "c \<noteq> 0"
  proof -
    have len: "2 \<le> length bytes"
      using res decode_short_header [of bytes r] by (cases "length bytes < 2") simp_all
    consider "?t \<in> {0, 2, 3, 4}" | "?t = 1" | "?t = 5" | "5 < ?t"
      by fastforce
    then show ?thesis
    proof cases
      case 1
      with len res show ?thesis by (simp add: decode_fixed_payload)
    next
      case 2
      with len res c show ?thesis by (simp add: decode_none)
    next
      case 3
      show ?thesis
      proof (cases "length bytes = 2")
        case True
        with 3 res show ?thesis by (simp add: decode_str_no_length_byte)
      next
        case False
        with len have "3 \<le> length bytes" by simp
        with 3 res c show ?thesis by (simp add: decode_str split: if_splits)
      qed
    next
      case 4
      with len res show ?thesis by (simp add: decode_unknown_tag)
    qed
  qed
  have fixed: "\<exists>f. inst_value_from_bytes bytes r = Inl f"
    if "2 \<le> length bytes" and "?t \<in> {0, 2, 3, 4}"
    using that decode_fixed_payload [of bytes r] by blast
  have str2: "inst_value_from_bytes bytes r = Inl OutOfBoundsRead"
    if "2 \<le> length bytes" and "?t = 5" and "length bytes < 3"
  proof -
    from that have "length bytes = 2" by simp
    with that show ?thesis by (simp add: decode_str_no_length_byte)
  qed
  have str3: "\<exists>f. inst_value_from_bytes bytes r = Inl f"
    if "3 \<le> length bytes" and "?t = 5" and "length bytes < 3 + unat (bytes ! 2)"
    using that by (simp add: decode_str)
  from codes fixed str2 str3 decode_short_header [of bytes r] show ?thesis
    by blast
qed

theorem decode_checks_no_length_witness:
  "inst_value_from_bytes [0, 9] \<lparr>inst_ty = halt, inst_v = V_NONE\<rparr>
     = Inr (1, \<lparr>inst_ty = halt, inst_v = V_NONE\<rparr>)
   \<and> (1::int) \<noteq> 0 \<and> 2 \<le> length [0, 9 :: 8 word] \<and> 5 < unat ([0, 9 :: 8 word] ! 1)
   \<and> length ([] :: 8 word list) < 2
   \<and> inst_value_from_bytes [] \<lparr>inst_ty = halt, inst_v = V_NONE\<rparr> = Inl OutOfBoundsRead
   \<and> 2 \<le> length [0, 2, 7 :: 8 word] \<and> unat ([0, 2, 7 :: 8 word] ! 1) \<in> {0, 2, 3, 4}
   \<and> length [0, 2, 7 :: 8 word] < 2 + 8
   \<and> (\<exists>f. inst_value_from_bytes [0, 2, 7] \<lparr>inst_ty = halt, inst_v = V_NONE\<rparr> = Inl f)
   \<and> 2 \<le> length [0, 5 :: 8 word] \<and> unat ([0, 5 :: 8 word] ! 1) = 5 \<and> length [0, 5 :: 8 word] < 3
   \<and> inst_value_from_bytes [0, 5] \<lparr>inst_ty = halt, inst_v = V_NONE\<rparr> = Inl OutOfBoundsRead
   \<and> 3 \<le> length [0, 5, 4, 0x61 :: 8 word] \<and> unat ([0, 5, 4, 0x61 :: 8 word] ! 1) = 5
   \<and> length [0, 5, 4, 0x61 :: 8 word] < 3 + unat ([0, 5, 4, 0x61 :: 8 word] ! 2)
   \<and> (\<exists>f. inst_value_from_bytes [0, 5, 4, 0x61] \<lparr>inst_ty = halt, inst_v = V_NONE\<rparr> = Inl f)"
  using
    decode_checks_no_length [of "[0, 9]" "\<lparr>inst_ty = halt, inst_v = V_NONE\<rparr>" 1
      "\<lparr>inst_ty = halt, inst_v = V_NONE\<rparr>"]
    decode_checks_no_length [of "[]" "\<lparr>inst_ty = halt, inst_v = V_NONE\<rparr>"]
    decode_checks_no_length [of "[0, 2, 7]" "\<lparr>inst_ty = halt, inst_v = V_NONE\<rparr>"]
    decode_checks_no_length [of "[0, 5]" "\<lparr>inst_ty = halt, inst_v = V_NONE\<rparr>"]
    decode_checks_no_length [of "[0, 5, 4, 0x61]" "\<lparr>inst_ty = halt, inst_v = V_NONE\<rparr>"]
  by (simp add: inst_value_from_bytes_def mem_eval)

text \<open>
  Claim C5, evaluated on the code. The claim says that a string longer than what is left
  of the 14-byte record makes the encoder fail with an error. A string of 12 bytes needs
  a record of 15 bytes (opcode, tag, length byte, 12 bytes); on the code it passes the
  guard \<open>len > INST_STR_CAP - size\<close>, taken before the length byte is counted, and the
  copy writes one byte past the end of \<open>ret\<close>. Only from 13 bytes on does the encoder
  print its message and return \<open>NULL\<close>, with the tag byte already stored in \<open>ret\<close>.
\<close>

theorem encode_string_of_12_bytes:
  "inst_value_to_bytes (V_STR (Chars (replicate 12 0x61))) globals_init = Inl OutOfBoundsWrite
   \<and> inst_value_to_bytes (V_STR (Chars (replicate 13 0x61))) globals_init
     = Inr (NULL, \<lparr>ret = [0, 5, 0, 0, 0, 0, 0, 0, 0, 0, 0, 0, 0, 0],
                    stderr = [''ERROR: String is too long'']\<rparr>)"
  by (simp add: inst_value_to_bytes_def mem_eval)

text \<open>
  Claim C6 as stated fails on the code: after encoding the Int64 operand 1 and then the
  Int64 operand 2, both calls have returned the address of the same array \<open>ret\<close>, and
  the bytes of the first record are not what they were when the first call returned.
\<close>

theorem encode_shared_buffer_counterexample:
  "inst_value_to_bytes (V_I64 1) globals_init
     = Inr (RET, \<lparr>ret = [0, 2, 1, 0, 0, 0, 0, 0, 0, 0, 0, 0, 0, 0], stderr = []\<rparr>)
   \<and> inst_value_to_bytes (V_I64 2)
         \<lparr>ret = [0, 2, 1, 0, 0, 0, 0, 0, 0, 0, 0, 0, 0, 0], stderr = []\<rparr>
     = Inr (RET, \<lparr>ret = [0, 2, 2, 0, 0, 0, 0, 0, 0, 0, 0, 0, 0, 0], stderr = []\<rparr>)
   \<and> [0, 2, 1, 0, 0, 0, 0, 0, 0, 0, 0, 0, 0, 0] \<noteq> [0, 2, 2, 0, 0, 0, 0, 0, 0, 0, 0, 0, 0, (0::8 word)]"
  by (simp add: inst_value_to_bytes_def mem_eval bytes_of_u64_1 bytes_of_u64_2)

text \<open>
  Claim C6, amended. The encoder is not pure: every call writes its record into the one
  static array \<open>ret\<close> and returns the address of that array or \<open>NULL\<close>. When
  encoding \<open>x\<close> is followed by encoding \<open>y\<close>, two non-null results are the same
  pointer, byte 1 of the array then holds the tag of \<open>y\<close>, and the record that the
  first call returned has changed whenever the two operands have different tags.
\<close>

theorem encode_overwrites_previous_record:
  assumes "inst_value_to_bytes x g = Inr (p, g1)"
    and "inst_value_to_bytes y g1 = Inr (q, g2)"
  shows "(p \<noteq> NULL \<and> q \<noteq> NULL \<longrightarrow> p = q)
    \<and> ret g2 ! 1 = of_nat (inst_v_type_num (inst_value_ty y))
    \<and> (inst_value_ty x \<noteq> inst_value_ty y \<longrightarrow> ret g2 \<noteq> ret g1)"
proof -
  have same: "p \<noteq> NULL \<and> q \<noteq> NULL \<longrightarrow> p = q"
    by (cases p; cases q) simp_all
  have tx: "ret g1 ! 1 = of_nat (inst_v_type_num (inst_value_ty x))"
    using assms(1) by (rule inst_value_to_bytes_tag)
  have ty: "ret g2 ! 1 = of_nat (inst_v_type_num (inst_value_ty y))"
    using assms(2) by (rule inst_value_to_bytes_tag)
  have "ret g2 \<noteq> ret g1" if "inst_value_ty x \<noteq> inst_value_ty y"
  proof
    assume "ret g2 = ret g1"
    with tx ty have
      "(of_nat (inst_v_type_num (inst_value_ty x)) :: 8 word)
        = of_nat (inst_v_type_num (inst_value_ty y))"
      by simp
    then have "inst_value_ty x = inst_value_ty y"
      by (rule inst_v_type_byte_inj)
    with that show False by simp
  qed
  with same ty show ?thesis by simp
qed

theorem encode_overwrites_previous_record_witness:
  "inst_value_to_bytes (V_I64 1) globals_init
     = Inr (RET, \<lparr>ret = [0, 2, 1, 0, 0, 0, 0, 0, 0, 0, 0, 0, 0, 0], stderr = []\<rparr>)
   \<and> inst_value_to_bytes V_NONE \<lparr>ret = [0, 2, 1, 0, 0, 0, 0, 0, 0, 0, 0, 0, 0, 0], stderr = []\<rparr>
     = Inr (RET, \<lparr>ret = [0, 1, 1, 0, 0, 0, 0, 0, 0, 0, 0, 0, 0, 0], stderr = []\<rparr>)
   \<and> RET \<noteq> NULL
   \<and> inst_value_ty (V_I64 1) \<noteq> inst_value_ty V_NONE
   \<and> [0, 1, 1, 0, 0, 0, 0, 0, 0, 0, 0, 0, 0, 0] ! 1 = (1 :: 8 word)
   \<and> [0, 1, 1, 0, 0, 0, 0, 0, 0, 0, 0, 0, 0, 0] \<noteq> [0, 2, 1, 0, 0, 0, 0, 0, 0, 0, 0, 0, 0, (0::8 word)]"
proof -
  have a: "inst_value_to_bytes (V_I64 1) globals_init
     = Inr (RET, \<lparr>ret = [0, 2, 1, 0, 0, 0, 0, 0, 0, 0, 0, 0, 0, 0], stderr = []\<rparr>)"
    by (simp add: inst_value_to_bytes_def mem_eval bytes_of_u64_1)
  have b: "inst_value_to_bytes V_NONE \<lparr>ret = [0, 2, 1, 0, 0, 0, 0, 0, 0, 0, 0, 0, 0, 0], stderr = []\<rparr>
     = Inr (RET, \<lparr>ret = [0, 1, 1, 0, 0, 0, 0, 0, 0, 0, 0, 0, 0, 0], stderr = []\<rparr>)"
    by (simp add: inst_value_to_bytes_def mem_eval)
  from encode_overwrites_previous_record [OF a b] a b show ?thesis
    by simp
qed

text \<open>
  Claim C9. Given an array whose second byte is the tag \<open>INST_V_TYPE_NONE\<close>, the
  decoder returns 0 and does not write the caller's \<open>Inst\<close>: whatever the opcode byte
  and whatever the \<open>Inst\<close> held before the call, it holds the same after the call.
\<close>

theorem decode_none_leaves_inst:
  assumes "2 \<le> length bytes"
    and "bytes ! 1 = of_nat (inst_v_type_num INST_V_TYPE_NONE)"
  shows "inst_value_from_bytes bytes r = Inr (0, r)"
  using assms by (simp add: decode_none)

theorem decode_none_leaves_inst_witness:
  "2 \<le> length [26, 1 :: 8 word]
   \<and> [26, 1 :: 8 word] ! 1 = of_nat (inst_v_type_num INST_V_TYPE_NONE)
   \<and> inst_value_from_bytes [26, 1] \<lparr>inst_ty = push, inst_v = V_I64 7\<rparr>
     = Inr (0, \<lparr>inst_ty = push, inst_v = V_I64 7\<rparr>)"
  using decode_none_leaves_inst [of "[26, 1]" "\<lparr>inst_ty = push, inst_v = V_I64 7\<rparr>"]
  by simp

end
